theory Spec2Isabelle
  imports Complex_Main
begin

section \<open>Python floats, errors and the builtins the scoring engine uses\<close>

text \<open>
  The scoring engine of \<^verbatim>\<open>benchmark_system.py\<close> computes on Python floats. A float is
  modelled as either a finite real or NaN. NaN propagates through arithmetic and makes
  every ordering comparison false, as in the source language. Python's \<^verbatim>\<open>/\<close> raises
  \<^verbatim>\<open>ZeroDivisionError\<close> on a zero divisor, and \<^verbatim>\<open>round\<close> raises
  \<^verbatim>\<open>ValueError\<close> on NaN; both are branches of the model.

  The four arithmetic operations are exact on finite values: the rounding of each
  operation to the 64-bit binary format, underflow and overflow to an infinity are not
  modelled. The value the model gives to a sum of products can therefore differ in the
  last place from the one the source computes. The statements below are of three kinds:
  statements about the control flow, the guards, the clamp and the final rounding step,
  which do not depend on the arithmetic; values at arguments where every operation of the
  source is exact in the binary format, or where the result is far from a rounding tie;
  and bounds and orderings over the reals.
\<close>

datatype error = ZeroDivisionError | ValueError

datatype pyfloat = Fin real | NaN

fun fadd :: "pyfloat \<Rightarrow> pyfloat \<Rightarrow> pyfloat" where
  "fadd (Fin a) (Fin b) = Fin (a + b)"
| "fadd _ _ = NaN"

fun fsub :: "pyfloat \<Rightarrow> pyfloat \<Rightarrow> pyfloat" where
  "fsub (Fin a) (Fin b) = Fin (a - b)"
| "fsub _ _ = NaN"

fun fmul :: "pyfloat \<Rightarrow> pyfloat \<Rightarrow> pyfloat" where
  "fmul (Fin a) (Fin b) = Fin (a * b)"
| "fmul _ _ = NaN"

text \<open>Float division: the divisor is tested for zero before anything else.\<close>

fun fdiv :: "pyfloat \<Rightarrow> pyfloat \<Rightarrow> error + pyfloat" where
  "fdiv x (Fin d) =
     (if d = 0 then Inl ZeroDivisionError
      else (case x of Fin a \<Rightarrow> Inr (Fin (a / d)) | NaN \<Rightarrow> Inr NaN))"
| "fdiv x NaN = Inr NaN"

fun fge :: "pyfloat \<Rightarrow> pyfloat \<Rightarrow> bool" where
  "fge (Fin a) (Fin b) = (a \<ge> b)"
| "fge _ _ = False"

fun fle :: "pyfloat \<Rightarrow> pyfloat \<Rightarrow> bool" where
  "fle (Fin a) (Fin b) = (a \<le> b)"
| "fle _ _ = False"

fun fgt :: "pyfloat \<Rightarrow> pyfloat \<Rightarrow> bool" where
  "fgt (Fin a) (Fin b) = (a > b)"
| "fgt _ _ = False"

fun flt :: "pyfloat \<Rightarrow> pyfloat \<Rightarrow> bool" where
  "flt (Fin a) (Fin b) = (a < b)"
| "flt _ _ = False"

text \<open>
  \<^verbatim>\<open>max(a, b)\<close> keeps its first argument unless the second compares greater;
  \<^verbatim>\<open>min(a, b)\<close> keeps its first argument unless the second compares less.
\<close>

definition py_max :: "pyfloat \<Rightarrow> pyfloat \<Rightarrow> pyfloat" where
  "py_max a b = (if fgt b a then b else a)"

definition py_min :: "pyfloat \<Rightarrow> pyfloat \<Rightarrow> pyfloat" where
  "py_min a b = (if flt b a then b else a)"

text \<open>
  \<^verbatim>\<open>round(x)\<close> on a float, as the runtime computes it: round half away from zero,
  and where the result is exactly one half away from the argument, take twice the
  rounding of half the argument instead.
\<close>

definition c_round :: "real \<Rightarrow> int" where
  "c_round x = (if 0 \<le> x then \<lfloor>x + 1 / 2\<rfloor> else \<lceil>x - 1 / 2\<rceil>)"

definition round_real :: "real \<Rightarrow> int" where
  "round_real x =
     (let rounded = c_round x
      in if \<bar>x - of_int rounded\<bar> = 1 / 2 then 2 * c_round (x / 2) else rounded)"

fun py_round :: "pyfloat \<Rightarrow> error + int" where
  "py_round (Fin x) = Inr (round_real x)"
| "py_round NaN = Inl ValueError"

text \<open>Sequencing of a computation that may have raised.\<close>

definition and_then :: "error + 'a \<Rightarrow> ('a \<Rightarrow> error + 'b) \<Rightarrow> error + 'b" where
  "and_then r f = (case r of Inl e \<Rightarrow> Inl e | Inr x \<Rightarrow> f x)"

section \<open>Threshold constants and weights\<close>

definition RMSSD_RELAXED :: pyfloat where "RMSSD_RELAXED = Fin 60"
definition RMSSD_NORMAL :: pyfloat where "RMSSD_NORMAL = Fin 40"
definition RMSSD_ELEVATED :: pyfloat where "RMSSD_ELEVATED = Fin 20"
definition SDNN_RELAXED :: pyfloat where "SDNN_RELAXED = Fin 80"
definition SDNN_NORMAL :: pyfloat where "SDNN_NORMAL = Fin 50"
definition SDNN_ELEVATED :: pyfloat where "SDNN_ELEVATED = Fin 30"
definition PNN50_RELAXED :: pyfloat where "PNN50_RELAXED = Fin 25"
definition PNN50_NORMAL :: pyfloat where "PNN50_NORMAL = Fin 10"
definition PNN50_ELEVATED :: pyfloat where "PNN50_ELEVATED = Fin 3"
definition SI_RELAXED :: pyfloat where "SI_RELAXED = Fin 100"
definition SI_NORMAL :: pyfloat where "SI_NORMAL = Fin 250"
definition SI_ELEVATED :: pyfloat where "SI_ELEVATED = Fin 500"
definition LFHF_RELAXED :: pyfloat where "LFHF_RELAXED = Fin (1 / 2)"
definition LFHF_NORMAL :: pyfloat where "LFHF_NORMAL = Fin 2"
definition LFHF_ELEVATED :: pyfloat where "LFHF_ELEVATED = Fin 4"
definition HF_RELAXED :: pyfloat where "HF_RELAXED = Fin 400"
definition HF_NORMAL :: pyfloat where "HF_NORMAL = Fin 150"
definition HF_ELEVATED :: pyfloat where "HF_ELEVATED = Fin 40"
definition HR_RELAXED :: pyfloat where "HR_RELAXED = Fin 65"
definition HR_NORMAL :: pyfloat where "HR_NORMAL = Fin 80"
definition HR_ELEVATED :: pyfloat where "HR_ELEVATED = Fin 95"

text \<open>
  The keys of the two dicts \<^verbatim>\<open>scores\<close> and \<^verbatim>\<open>WEIGHTS\<close>. A dict with exactly
  these seven keys is a function on them; \<open>feature_keys\<close> is the iteration order of
  \<^verbatim>\<open>WEIGHTS\<close> (its insertion order).
\<close>

datatype feature = Rmssd | Sdnn | Pnn50 | Si | Lfhf | Hf | Hr

definition feature_keys :: "feature list" where
  "feature_keys = [Rmssd, Sdnn, Pnn50, Si, Lfhf, Hf, Hr]"

fun WEIGHTS :: "feature \<Rightarrow> pyfloat" where
  "WEIGHTS Rmssd = Fin (25 / 100)"
| "WEIGHTS Sdnn = Fin (15 / 100)"
| "WEIGHTS Pnn50 = Fin (10 / 100)"
| "WEIGHTS Si = Fin (15 / 100)"
| "WEIGHTS Lfhf = Fin (15 / 100)"
| "WEIGHTS Hf = Fin (10 / 100)"
| "WEIGHTS Hr = Fin (10 / 100)"

section \<open>The interpolation functions\<close>

definition inverted_piecewise ::
  "pyfloat \<Rightarrow> pyfloat \<Rightarrow> pyfloat \<Rightarrow> pyfloat \<Rightarrow> error + pyfloat" where
  "inverted_piecewise val relaxed normal elevated =
     (if fge val relaxed then
        and_then (fdiv (fsub val relaxed) relaxed)
          (\<lambda>q. Inr (py_max (Fin 0) (fmul (Fin 12) (fsub (Fin 1) q))))
      else if fge val normal then
        and_then (fdiv (fsub relaxed val) (fsub relaxed normal))
          (\<lambda>q. Inr (fadd (Fin 13) (fmul q (Fin 24))))
      else if fge val elevated then
        and_then (fdiv (fsub normal val) (fsub normal elevated))
          (\<lambda>q. Inr (fadd (Fin 38) (fmul q (Fin 24))))
      else
        and_then
          (if fgt elevated (Fin 0)
           then and_then (fdiv (fsub elevated val) elevated) (\<lambda>q. Inr (py_min (Fin 1) q))
           else Inr (Fin 1))
          (\<lambda>t. Inr (fadd (Fin 63) (fmul t (Fin 37)))))"

definition direct_piecewise ::
  "pyfloat \<Rightarrow> pyfloat \<Rightarrow> pyfloat \<Rightarrow> pyfloat \<Rightarrow> error + pyfloat" where
  "direct_piecewise val relaxed normal elevated =
     (if fle val relaxed then
        (if fgt relaxed (Fin 0)
         then and_then (fdiv val relaxed) (\<lambda>q. Inr (fmul q (Fin 12)))
         else Inr (Fin 0))
      else if fle val normal then
        and_then (fdiv (fsub val relaxed) (fsub normal relaxed))
          (\<lambda>q. Inr (fadd (Fin 13) (fmul q (Fin 24))))
      else if fle val elevated then
        and_then (fdiv (fsub val normal) (fsub elevated normal))
          (\<lambda>q. Inr (fadd (Fin 38) (fmul q (Fin 24))))
      else
        and_then
          (if fgt elevated (Fin 0)
           then and_then (fdiv (fsub val elevated) elevated) (\<lambda>q. Inr (py_min (Fin 1) q))
           else Inr (Fin 1))
          (\<lambda>overshoot. Inr (fadd (Fin 63) (fmul overshoot (Fin 37)))))"

section \<open>The composite scorer\<close>

text \<open>
  \<^verbatim>\<open>compute_stress_score\<close> reads the module-level dict \<^verbatim>\<open>WEIGHTS\<close> at call time.
  \<open>compute_scores\<close> is the dict display (its seven calls run in order, the first one to
  raise ends the call), \<open>composite\<close> the generator sum (\<^verbatim>\<open>sum\<close> starts from 0 and adds
  from the left, in the order of the keys of the weights), \<open>clamped_composite\<close> the
  argument of \<^verbatim>\<open>round\<close>. \<open>compute_stress_score_with\<close> has the binding of
  \<^verbatim>\<open>WEIGHTS\<close> as a parameter; \<open>compute_stress_score\<close> is the function under the
  binding the module makes.
\<close>

definition compute_scores ::
  "pyfloat \<Rightarrow> pyfloat \<Rightarrow> pyfloat \<Rightarrow> pyfloat \<Rightarrow> pyfloat \<Rightarrow> pyfloat \<Rightarrow> pyfloat
     \<Rightarrow> error + (feature \<Rightarrow> pyfloat)" where
  "compute_scores rmssd sdnn pnn50 si lfhf hf hr =
     and_then (inverted_piecewise rmssd RMSSD_RELAXED RMSSD_NORMAL RMSSD_ELEVATED) (\<lambda>s1.
     and_then (inverted_piecewise sdnn SDNN_RELAXED SDNN_NORMAL SDNN_ELEVATED) (\<lambda>s2.
     and_then (inverted_piecewise pnn50 PNN50_RELAXED PNN50_NORMAL PNN50_ELEVATED) (\<lambda>s3.
     and_then (direct_piecewise si SI_RELAXED SI_NORMAL SI_ELEVATED) (\<lambda>s4.
     and_then (direct_piecewise lfhf LFHF_RELAXED LFHF_NORMAL LFHF_ELEVATED) (\<lambda>s5.
     and_then (inverted_piecewise hf HF_RELAXED HF_NORMAL HF_ELEVATED) (\<lambda>s6.
     and_then (direct_piecewise hr HR_RELAXED HR_NORMAL HR_ELEVATED) (\<lambda>s7.
       Inr (\<lambda>k. case k of Rmssd \<Rightarrow> s1 | Sdnn \<Rightarrow> s2 | Pnn50 \<Rightarrow> s3 | Si \<Rightarrow> s4
                 | Lfhf \<Rightarrow> s5 | Hf \<Rightarrow> s6 | Hr \<Rightarrow> s7))))))))"

definition composite :: "(feature \<Rightarrow> pyfloat) \<Rightarrow> (feature \<Rightarrow> pyfloat) \<Rightarrow> pyfloat" where
  "composite W scores = foldl fadd (Fin 0) (map (\<lambda>k. fmul (scores k) (W k)) feature_keys)"

definition clamped_composite ::
  "(feature \<Rightarrow> pyfloat) \<Rightarrow> pyfloat \<Rightarrow> pyfloat \<Rightarrow> pyfloat \<Rightarrow> pyfloat \<Rightarrow> pyfloat \<Rightarrow> pyfloat
     \<Rightarrow> pyfloat \<Rightarrow> error + pyfloat" where
  "clamped_composite W rmssd sdnn pnn50 si lfhf hf hr =
     and_then (compute_scores rmssd sdnn pnn50 si lfhf hf hr)
       (\<lambda>scores. Inr (py_max (Fin 0) (py_min (Fin 100) (composite W scores))))"

definition compute_stress_score_with ::
  "(feature \<Rightarrow> pyfloat) \<Rightarrow> pyfloat \<Rightarrow> pyfloat \<Rightarrow> pyfloat \<Rightarrow> pyfloat \<Rightarrow> pyfloat \<Rightarrow> pyfloat
     \<Rightarrow> pyfloat \<Rightarrow> error + int" where
  "compute_stress_score_with W rmssd sdnn pnn50 si lfhf hf hr =
     and_then (clamped_composite W rmssd sdnn pnn50 si lfhf hf hr) py_round"

definition compute_stress_score ::
  "pyfloat \<Rightarrow> pyfloat \<Rightarrow> pyfloat \<Rightarrow> pyfloat \<Rightarrow> pyfloat \<Rightarrow> pyfloat \<Rightarrow> pyfloat \<Rightarrow> error + int" where
  "compute_stress_score = compute_stress_score_with WEIGHTS"

section \<open>Auxiliary definitions for the statements\<close>

text \<open>
  The real number each interpolation function computes on finite arguments, and the
  weighted sum of the seven sub-scores under the default table and weights. They are
  connected to the functions above by the lemmas \<open>inverted_piecewise_value\<close>,
  \<open>direct_piecewise_value\<close> and \<open>clamped_composite_Fin\<close> below.
\<close>

definition inverted_value :: "real \<Rightarrow> real \<Rightarrow> real \<Rightarrow> real \<Rightarrow> real" where
  "inverted_value v r n e =
     (if r \<le> v then max 0 (12 * (1 - (v - r) / r))
      else if n \<le> v then 13 + (r - v) / (r - n) * 24
      else if e \<le> v then 38 + (n - v) / (n - e) * 24
      else 63 + (if 0 < e then min 1 ((e - v) / e) else 1) * 37)"

definition direct_value :: "real \<Rightarrow> real \<Rightarrow> real \<Rightarrow> real \<Rightarrow> real" where
  "direct_value v r n e =
     (if v \<le> r then (if 0 < r then v / r * 12 else 0)
      else if v \<le> n then 13 + (v - r) / (n - r) * 24
      else if v \<le> e then 38 + (v - n) / (e - n) * 24
      else 63 + (if 0 < e then min 1 ((v - e) / e) else 1) * 37)"

definition finite_composite ::
  "real \<Rightarrow> real \<Rightarrow> real \<Rightarrow> real \<Rightarrow> real \<Rightarrow> real \<Rightarrow> real \<Rightarrow> real" where
  "finite_composite rmssd sdnn pnn50 si lfhf hf hr =
     inverted_value rmssd 60 40 20 * (25 / 100)
     + inverted_value sdnn 80 50 30 * (15 / 100)
     + inverted_value pnn50 25 10 3 * (10 / 100)
     + direct_value si 100 250 500 * (15 / 100)
     + direct_value lfhf (1 / 2) 2 4 * (15 / 100)
     + inverted_value hf 400 150 40 * (10 / 100)
     + direct_value hr 65 80 95 * (10 / 100)"

text \<open>The divisors that occur in the four branches of each interpolation function.\<close>

definition inverted_denominators :: "pyfloat \<Rightarrow> pyfloat \<Rightarrow> pyfloat \<Rightarrow> pyfloat list" where
  "inverted_denominators relaxed normal elevated =
     [relaxed, fsub relaxed normal, fsub normal elevated, elevated]"

definition direct_denominators :: "pyfloat \<Rightarrow> pyfloat \<Rightarrow> pyfloat \<Rightarrow> pyfloat list" where
  "direct_denominators relaxed normal elevated =
     [relaxed, fsub normal relaxed, fsub elevated normal, elevated]"

section \<open>Basic facts about the model\<close>

lemmas threshold_defs =
  RMSSD_RELAXED_def RMSSD_NORMAL_def RMSSD_ELEVATED_def
  SDNN_RELAXED_def SDNN_NORMAL_def SDNN_ELEVATED_def
  PNN50_RELAXED_def PNN50_NORMAL_def PNN50_ELEVATED_def
  SI_RELAXED_def SI_NORMAL_def SI_ELEVATED_def
  LFHF_RELAXED_def LFHF_NORMAL_def LFHF_ELEVATED_def
  HF_RELAXED_def HF_NORMAL_def HF_ELEVATED_def
  HR_RELAXED_def HR_NORMAL_def HR_ELEVATED_def

lemma py_max_Fin: "py_max (Fin a) (Fin b) = Fin (max a b)"
  by (simp add: py_max_def max_def)

lemma py_min_Fin: "py_min (Fin a) (Fin b) = Fin (min a b)"
  by (simp add: py_min_def min_def)

lemma and_then_Inr: "and_then (Inr x) f = f x"
  by (simp add: and_then_def)

lemma and_then_Inl: "and_then (Inl e) f = Inl e"
  by (simp add: and_then_def)

lemma inverted_piecewise_Fin:
  "inverted_piecewise (Fin v) (Fin r) (Fin n) (Fin e) =
     (if r \<le> v then
        (if r = 0 then Inl ZeroDivisionError
         else Inr (Fin (max 0 (12 * (1 - (v - r) / r)))))
      else if n \<le> v then Inr (Fin (13 + (r - v) / (r - n) * 24))
      else if e \<le> v then Inr (Fin (38 + (n - v) / (n - e) * 24))
      else Inr (Fin (63 + (if 0 < e then min 1 ((e - v) / e) else 1) * 37)))"
  by (simp add: inverted_piecewise_def and_then_def py_max_Fin py_min_Fin)

lemma direct_piecewise_Fin:
  "direct_piecewise (Fin v) (Fin r) (Fin n) (Fin e) =
     (if v \<le> r then Inr (Fin (if 0 < r then v / r * 12 else 0))
      else if v \<le> n then Inr (Fin (13 + (v - r) / (n - r) * 24))
      else if v \<le> e then Inr (Fin (38 + (v - n) / (e - n) * 24))
      else Inr (Fin (63 + (if 0 < e then min 1 ((v - e) / e) else 1) * 37)))"
  by (simp add: direct_piecewise_def and_then_def py_max_Fin py_min_Fin)

lemma inverted_piecewise_NaN:
  "inverted_piecewise NaN (Fin r) (Fin n) (Fin e) = Inr (Fin 100)"
  by (simp add: inverted_piecewise_def and_then_def py_min_def)

lemma direct_piecewise_NaN:
  "direct_piecewise NaN (Fin r) (Fin n) (Fin e) = Inr (Fin 100)"
  by (simp add: direct_piecewise_def and_then_def py_min_def)

section \<open>The interpolation functions on finite arguments\<close>

lemma inverted_band1:
  assumes "0 < r" "r \<le> v"
  shows "0 \<le> inverted_value v r n e" "inverted_value v r n e \<le> 12"
proof -
  define q where "q = (v - r) / r"
  have "0 \<le> q" using assms by (simp add: q_def)
  moreover have "inverted_value v r n e = max 0 (12 * (1 - q))"
    using assms by (simp add: inverted_value_def q_def)
  ultimately show "0 \<le> inverted_value v r n e" "inverted_value v r n e \<le> 12"
    by simp_all
qed

lemma inverted_band2:
  assumes "n < r" "n \<le> v" "v < r"
  shows "13 < inverted_value v r n e" "inverted_value v r n e \<le> 37"
proof -
  define q where "q = (r - v) / (r - n)"
  have "0 < q" "q \<le> 1" using assms by (simp_all add: q_def)
  moreover have "inverted_value v r n e = 13 + q * 24"
    using assms by (simp add: inverted_value_def q_def)
  ultimately show "13 < inverted_value v r n e" "inverted_value v r n e \<le> 37"
    by simp_all
qed

lemma inverted_band3:
  assumes "e < n" "n < r" "e \<le> v" "v < n"
  shows "38 < inverted_value v r n e" "inverted_value v r n e \<le> 62"
proof -
  define q where "q = (n - v) / (n - e)"
  have "0 < q" "q \<le> 1" using assms by (simp_all add: q_def)
  moreover have "inverted_value v r n e = 38 + q * 24"
    using assms by (simp add: inverted_value_def q_def)
  ultimately show "38 < inverted_value v r n e" "inverted_value v r n e \<le> 62"
    by simp_all
qed

lemma inverted_band4:
  assumes "0 < e" "e < n" "n < r" "v < e"
  shows "63 < inverted_value v r n e" "inverted_value v r n e \<le> 100"
proof -
  define t where "t = min 1 ((e - v) / e)"
  have "0 < (e - v) / e" using assms by simp
  then have "0 < t" "t \<le> 1" by (simp_all add: t_def)
  moreover have "inverted_value v r n e = 63 + t * 37"
    using assms by (simp add: inverted_value_def t_def)
  ultimately show "63 < inverted_value v r n e" "inverted_value v r n e \<le> 100"
    by simp_all
qed

lemma inverted_value_range:
  assumes "0 < e" "e < n" "n < r"
  shows "0 \<le> inverted_value v r n e \<and> inverted_value v r n e \<le> 100"
proof -
  consider "r \<le> v" | "n \<le> v" "v < r" | "e \<le> v" "v < n" | "v < e" by linarith
  then show ?thesis
  proof cases
    case 1 then show ?thesis using inverted_band1[of r v n e] assms by simp
  next
    case 2 then show ?thesis using inverted_band2[of n r v e] assms by simp
  next
    case 3 then show ?thesis using inverted_band3[of e n r v] assms by simp
  next
    case 4 then show ?thesis using inverted_band4[of e n r v] assms by simp
  qed
qed

lemma inverted_mono1:
  assumes "0 < r" "r \<le> v1" "v1 \<le> v2"
  shows "inverted_value v2 r n e \<le> inverted_value v1 r n e"
proof -
  define q1 where "q1 = (v1 - r) / r"
  define q2 where "q2 = (v2 - r) / r"
  have "q1 \<le> q2" using assms by (simp add: q1_def q2_def divide_right_mono)
  moreover have "inverted_value v1 r n e = max 0 (12 * (1 - q1))"
    "inverted_value v2 r n e = max 0 (12 * (1 - q2))"
    using assms by (simp_all add: inverted_value_def q1_def q2_def)
  ultimately show ?thesis by simp
qed

lemma inverted_mono2:
  assumes "n < r" "n \<le> v1" "v1 \<le> v2" "v2 < r"
  shows "inverted_value v2 r n e \<le> inverted_value v1 r n e"
proof -
  define q1 where "q1 = (r - v1) / (r - n)"
  define q2 where "q2 = (r - v2) / (r - n)"
  have "q2 \<le> q1" using assms by (simp add: q1_def q2_def divide_right_mono)
  moreover have "inverted_value v1 r n e = 13 + q1 * 24"
    "inverted_value v2 r n e = 13 + q2 * 24"
    using assms by (simp_all add: inverted_value_def q1_def q2_def)
  ultimately show ?thesis by simp
qed

lemma inverted_mono3:
  assumes "e < n" "n < r" "e \<le> v1" "v1 \<le> v2" "v2 < n"
  shows "inverted_value v2 r n e \<le> inverted_value v1 r n e"
proof -
  define q1 where "q1 = (n - v1) / (n - e)"
  define q2 where "q2 = (n - v2) / (n - e)"
  have "q2 \<le> q1" using assms by (simp add: q1_def q2_def divide_right_mono)
  moreover have "inverted_value v1 r n e = 38 + q1 * 24"
    "inverted_value v2 r n e = 38 + q2 * 24"
    using assms by (simp_all add: inverted_value_def q1_def q2_def)
  ultimately show ?thesis by simp
qed

lemma inverted_mono4:
  assumes "0 < e" "e < n" "n < r" "v1 \<le> v2" "v2 < e"
  shows "inverted_value v2 r n e \<le> inverted_value v1 r n e"
proof -
  define t1 where "t1 = min 1 ((e - v1) / e)"
  define t2 where "t2 = min 1 ((e - v2) / e)"
  have "(e - v2) / e \<le> (e - v1) / e" using assms by (simp add: divide_right_mono)
  then have "t2 \<le> t1" by (simp add: t1_def t2_def min_le_iff_disj)
  moreover have "inverted_value v1 r n e = 63 + t1 * 37"
    "inverted_value v2 r n e = 63 + t2 * 37"
    using assms by (simp_all add: inverted_value_def t1_def t2_def)
  ultimately show ?thesis by simp
qed

lemma inverted_value_antimono:
  assumes ord: "0 < e" "e < n" "n < r" and le: "v1 \<le> v2"
  shows "inverted_value v2 r n e \<le> inverted_value v1 r n e"
proof -
  consider (b1) "r \<le> v1" | (b2) "n \<le> v1" "v1 < r" | (b3) "e \<le> v1" "v1 < n" | (b4) "v1 < e"
    by linarith
  then show ?thesis
  proof cases
    case b1
    then show ?thesis using inverted_mono1[of r v1 v2 n e] ord le by simp
  next
    case b2
    show ?thesis
    proof (cases "v2 < r")
      case True
      then show ?thesis using inverted_mono2[of n r v1 v2 e] ord le b2 by simp
    next
      case False
      then show ?thesis
        using inverted_band1(2)[of r v2 n e] inverted_band2(1)[of n r v1 e] ord b2 by simp
    qed
  next
    case b3
    consider "v2 < n" | "n \<le> v2" "v2 < r" | "r \<le> v2" by linarith
    then show ?thesis
    proof cases
      case 1
      then show ?thesis using inverted_mono3[of e n r v1 v2] ord le b3 by simp
    next
      case 2
      then show ?thesis
        using inverted_band2(2)[of n r v2 e] inverted_band3(1)[of e n r v1] ord b3 by simp
    next
      case 3
      then show ?thesis
        using inverted_band1(2)[of r v2 n e] inverted_band3(1)[of e n r v1] ord b3 by simp
    qed
  next
    case b4
    consider "v2 < e" | "e \<le> v2" "v2 < n" | "n \<le> v2" "v2 < r" | "r \<le> v2" by linarith
    then show ?thesis
    proof cases
      case 1
      then show ?thesis using inverted_mono4[of e n r v1 v2] ord le by simp
    next
      case 2
      then show ?thesis
        using inverted_band3(2)[of e n r v2] inverted_band4(1)[of e n r v1] ord b4 by simp
    next
      case 3
      then show ?thesis
        using inverted_band2(2)[of n r v2 e] inverted_band4(1)[of e n r v1] ord b4 by simp
    next
      case 4
      then show ?thesis
        using inverted_band1(2)[of r v2 n e] inverted_band4(1)[of e n r v1] ord b4 by simp
    qed
  qed
qed

lemma direct_band1:
  assumes "0 < r" "v \<le> r"
  shows "direct_value v r n e \<le> 12" "0 \<le> v \<Longrightarrow> 0 \<le> direct_value v r n e"
    "v < 0 \<Longrightarrow> direct_value v r n e < 0"
proof -
  define q where "q = v / r"
  have "q \<le> 1" "0 \<le> v \<Longrightarrow> 0 \<le> q" "v < 0 \<Longrightarrow> q < 0"
    using assms by (simp_all add: q_def divide_neg_pos)
  moreover have "direct_value v r n e = q * 12"
    using assms by (simp add: direct_value_def q_def)
  ultimately show "direct_value v r n e \<le> 12" "0 \<le> v \<Longrightarrow> 0 \<le> direct_value v r n e"
    "v < 0 \<Longrightarrow> direct_value v r n e < 0"
    by simp_all
qed

lemma direct_band2:
  assumes "r < n" "r < v" "v \<le> n"
  shows "13 < direct_value v r n e" "direct_value v r n e \<le> 37"
proof -
  define q where "q = (v - r) / (n - r)"
  have "0 < q" "q \<le> 1" using assms by (simp_all add: q_def)
  moreover have "direct_value v r n e = 13 + q * 24"
    using assms by (simp add: direct_value_def q_def)
  ultimately show "13 < direct_value v r n e" "direct_value v r n e \<le> 37"
    by simp_all
qed

lemma direct_band3:
  assumes "r < n" "n < e" "n < v" "v \<le> e"
  shows "38 < direct_value v r n e" "direct_value v r n e \<le> 62"
proof -
  define q where "q = (v - n) / (e - n)"
  have "0 < q" "q \<le> 1" using assms by (simp_all add: q_def)
  moreover have "direct_value v r n e = 38 + q * 24"
    using assms by (simp add: direct_value_def q_def)
  ultimately show "38 < direct_value v r n e" "direct_value v r n e \<le> 62"
    by simp_all
qed

lemma direct_band4:
  assumes "0 < r" "r < n" "n < e" "e < v"
  shows "63 < direct_value v r n e" "direct_value v r n e \<le> 100"
proof -
  define t where "t = min 1 ((v - e) / e)"
  have "0 < e" using assms by simp
  then have "0 < (v - e) / e" using assms by simp
  then have "0 < t" "t \<le> 1" by (simp_all add: t_def)
  moreover have "direct_value v r n e = 63 + t * 37"
    using assms \<open>0 < e\<close> by (simp add: direct_value_def t_def)
  ultimately show "63 < direct_value v r n e" "direct_value v r n e \<le> 100"
    by simp_all
qed

lemma direct_value_upper:
  assumes "0 < r" "r < n" "n < e"
  shows "direct_value v r n e \<le> 100"
proof -
  consider "v \<le> r" | "r < v" "v \<le> n" | "n < v" "v \<le> e" | "e < v" by linarith
  then show ?thesis
  proof cases
    case 1 then show ?thesis using direct_band1(1)[of r v n e] assms by simp
  next
    case 2 then show ?thesis using direct_band2(2)[of r n v e] assms by simp
  next
    case 3 then show ?thesis using direct_band3(2)[of r n e v] assms by simp
  next
    case 4 then show ?thesis using direct_band4(2)[of r n e v] assms by simp
  qed
qed

lemma direct_value_lower:
  assumes "0 < r" "r < n" "n < e" "0 \<le> v"
  shows "0 \<le> direct_value v r n e"
proof -
  consider "v \<le> r" | "r < v" "v \<le> n" | "n < v" "v \<le> e" | "e < v" by linarith
  then show ?thesis
  proof cases
    case 1 then show ?thesis using direct_band1(2)[of r v n e] assms by simp
  next
    case 2 then show ?thesis using direct_band2(1)[of r n v e] assms by simp
  next
    case 3 then show ?thesis using direct_band3(1)[of r n e v] assms by simp
  next
    case 4 then show ?thesis using direct_band4(1)[of r n e v] assms by simp
  qed
qed

lemma direct_mono1:
  assumes "0 < r" "v1 \<le> v2" "v2 \<le> r"
  shows "direct_value v1 r n e \<le> direct_value v2 r n e"
proof -
  define q1 where "q1 = v1 / r"
  define q2 where "q2 = v2 / r"
  have "q1 \<le> q2" using assms by (simp add: q1_def q2_def divide_right_mono)
  moreover have "direct_value v1 r n e = q1 * 12" "direct_value v2 r n e = q2 * 12"
    using assms by (simp_all add: direct_value_def q1_def q2_def)
  ultimately show ?thesis by simp
qed

lemma direct_mono2:
  assumes "r < n" "r < v1" "v1 \<le> v2" "v2 \<le> n"
  shows "direct_value v1 r n e \<le> direct_value v2 r n e"
proof -
  define q1 where "q1 = (v1 - r) / (n - r)"
  define q2 where "q2 = (v2 - r) / (n - r)"
  have "q1 \<le> q2" using assms by (simp add: q1_def q2_def divide_right_mono)
  moreover have "direct_value v1 r n e = 13 + q1 * 24" "direct_value v2 r n e = 13 + q2 * 24"
    using assms by (simp_all add: direct_value_def q1_def q2_def)
  ultimately show ?thesis by simp
qed

lemma direct_mono3:
  assumes "r < n" "n < e" "n < v1" "v1 \<le> v2" "v2 \<le> e"
  shows "direct_value v1 r n e \<le> direct_value v2 r n e"
proof -
  define q1 where "q1 = (v1 - n) / (e - n)"
  define q2 where "q2 = (v2 - n) / (e - n)"
  have "q1 \<le> q2" using assms by (simp add: q1_def q2_def divide_right_mono)
  moreover have "direct_value v1 r n e = 38 + q1 * 24" "direct_value v2 r n e = 38 + q2 * 24"
    using assms by (simp_all add: direct_value_def q1_def q2_def)
  ultimately show ?thesis by simp
qed

lemma direct_mono4:
  assumes "0 < r" "r < n" "n < e" "e < v1" "v1 \<le> v2"
  shows "direct_value v1 r n e \<le> direct_value v2 r n e"
proof -
  define t1 where "t1 = min 1 ((v1 - e) / e)"
  define t2 where "t2 = min 1 ((v2 - e) / e)"
  have "0 < e" using assms by simp
  then have "(v1 - e) / e \<le> (v2 - e) / e" using assms by (simp add: divide_right_mono)
  then have "t1 \<le> t2" by (simp add: t1_def t2_def min_le_iff_disj)
  moreover have "direct_value v1 r n e = 63 + t1 * 37" "direct_value v2 r n e = 63 + t2 * 37"
    using assms \<open>0 < e\<close> by (simp_all add: direct_value_def t1_def t2_def)
  ultimately show ?thesis by simp
qed

lemma direct_value_mono:
  assumes ord: "0 < r" "r < n" "n < e" and le: "v1 \<le> v2"
  shows "direct_value v1 r n e \<le> direct_value v2 r n e"
proof -
  consider (b1) "v2 \<le> r" | (b2) "r < v2" "v2 \<le> n" | (b3) "n < v2" "v2 \<le> e" | (b4) "e < v2"
    by linarith
  then show ?thesis
  proof cases
    case b1
    then show ?thesis using direct_mono1[of r v1 v2 n e] ord le by simp
  next
    case b2
    show ?thesis
    proof (cases "r < v1")
      case True
      then show ?thesis using direct_mono2[of r n v1 v2 e] ord le b2 by simp
    next
      case False
      then show ?thesis
        using direct_band1(1)[of r v1 n e] direct_band2(1)[of r n v2 e] ord b2 by simp
    qed
  next
    case b3
    consider "n < v1" | "r < v1" "v1 \<le> n" | "v1 \<le> r" by linarith
    then show ?thesis
    proof cases
      case 1
      then show ?thesis using direct_mono3[of r n e v1 v2] ord le b3 by simp
    next
      case 2
      then show ?thesis
        using direct_band2(2)[of r n v1 e] direct_band3(1)[of r n e v2] ord b3 by simp
    next
      case 3
      then show ?thesis
        using direct_band1(1)[of r v1 n e] direct_band3(1)[of r n e v2] ord b3 by simp
    qed
  next
    case b4
    consider "e < v1" | "n < v1" "v1 \<le> e" | "r < v1" "v1 \<le> n" | "v1 \<le> r" by linarith
    then show ?thesis
    proof cases
      case 1
      then show ?thesis using direct_mono4[of r n e v1 v2] ord le by simp
    next
      case 2
      then show ?thesis
        using direct_band3(2)[of r n e v1] direct_band4(1)[of r n e v2] ord b4 by simp
    next
      case 3
      then show ?thesis
        using direct_band2(2)[of r n v1 e] direct_band4(1)[of r n e v2] ord b4 by simp
    next
      case 4
      then show ?thesis
        using direct_band1(1)[of r v1 n e] direct_band4(1)[of r n e v2] ord b4 by simp
    qed
  qed
qed

section \<open>Totality and rounding\<close>

lemma inverted_piecewise_total:
  assumes "r \<noteq> 0"
  shows "\<exists>s. inverted_piecewise x (Fin r) (Fin n) (Fin e) = Inr s"
proof (cases x)
  case (Fin v)
  then show ?thesis using assms by (simp add: inverted_piecewise_Fin)
next
  case NaN
  then show ?thesis by (simp add: inverted_piecewise_NaN)
qed

lemma direct_piecewise_total:
  "\<exists>s. direct_piecewise x (Fin r) (Fin n) (Fin e) = Inr s"
proof (cases x)
  case (Fin v)
  then show ?thesis by (simp add: direct_piecewise_Fin)
next
  case NaN
  then show ?thesis by (simp add: direct_piecewise_NaN)
qed

lemma compute_scores_total:
  "\<exists>scores. compute_scores rmssd sdnn pnn50 si lfhf hf hr = Inr scores"
proof -
  obtain s1 where s1: "inverted_piecewise rmssd RMSSD_RELAXED RMSSD_NORMAL RMSSD_ELEVATED = Inr s1"
    using inverted_piecewise_total[of 60 rmssd 40 20] by (auto simp: threshold_defs)
  obtain s2 where s2: "inverted_piecewise sdnn SDNN_RELAXED SDNN_NORMAL SDNN_ELEVATED = Inr s2"
    using inverted_piecewise_total[of 80 sdnn 50 30] by (auto simp: threshold_defs)
  obtain s3 where s3: "inverted_piecewise pnn50 PNN50_RELAXED PNN50_NORMAL PNN50_ELEVATED = Inr s3"
    using inverted_piecewise_total[of 25 pnn50 10 3] by (auto simp: threshold_defs)
  obtain s4 where s4: "direct_piecewise si SI_RELAXED SI_NORMAL SI_ELEVATED = Inr s4"
    using direct_piecewise_total[of si 100 250 500] by (auto simp: threshold_defs)
  obtain s5 where s5: "direct_piecewise lfhf LFHF_RELAXED LFHF_NORMAL LFHF_ELEVATED = Inr s5"
    using direct_piecewise_total[of lfhf "1 / 2" 2 4] by (auto simp: threshold_defs)
  obtain s6 where s6: "inverted_piecewise hf HF_RELAXED HF_NORMAL HF_ELEVATED = Inr s6"
    using inverted_piecewise_total[of 400 hf 150 40] by (auto simp: threshold_defs)
  obtain s7 where s7: "direct_piecewise hr HR_RELAXED HR_NORMAL HR_ELEVATED = Inr s7"
    using direct_piecewise_total[of hr 65 80 95] by (auto simp: threshold_defs)
  show ?thesis
    by (simp add: compute_scores_def s1 s2 s3 s4 s5 s6 s7 and_then_Inr)
qed

lemma clamp_range:
  "\<exists>x. py_max (Fin 0) (py_min (Fin 100) c) = Fin x \<and> 0 \<le> x \<and> x \<le> 100"
  by (cases c) (auto simp: py_max_def py_min_def)

lemma c_round_range:
  assumes "0 \<le> x" "x \<le> of_int m"
  shows "0 \<le> c_round x" "c_round x \<le> m"
proof -
  have "c_round x = \<lfloor>x + 1 / 2\<rfloor>" using assms by (simp add: c_round_def)
  moreover have "0 \<le> \<lfloor>x + 1 / 2\<rfloor>" using assms by simp
  moreover have "\<lfloor>x + 1 / 2\<rfloor> \<le> m" using assms by (simp add: floor_le_iff)
  ultimately show "0 \<le> c_round x" "c_round x \<le> m" by simp_all
qed

lemma round_real_range:
  assumes "0 \<le> x" "x \<le> 100"
  shows "0 \<le> round_real x \<and> round_real x \<le> 100"
proof -
  have a: "0 \<le> c_round x" "c_round x \<le> 100"
    using c_round_range[of x 100] assms by simp_all
  have b: "0 \<le> c_round (x / 2)" "c_round (x / 2) \<le> 50"
    using c_round_range[of "x / 2" 50] assms by simp_all
  show ?thesis using a b by (simp add: round_real_def Let_def)
qed

lemma c_round_half:
  "c_round (of_int k + 1 / 2) = (if 0 \<le> k then k + 1 else k)"
proof (cases "0 \<le> k")
  case True
  then have "0 \<le> (of_int k :: real) + 1 / 2" by simp
  moreover have "\<lfloor>(of_int k :: real) + 1 / 2 + 1 / 2\<rfloor> = k + 1" by (simp add: floor_unique)
  ultimately show ?thesis using True by (simp add: c_round_def)
next
  case False
  then have "k \<le> -1" by simp
  then have "(of_int k :: real) \<le> -1" by (metis of_int_le_iff of_int_minus of_int_1)
  then have "\<not> 0 \<le> (of_int k :: real) + 1 / 2" by simp
  then show ?thesis using False by (simp add: c_round_def)
qed

lemma c_round_quarter_even:
  "c_round ((of_int (2 * m) + 1 / 2) / 2) = m"
proof (cases "0 \<le> m")
  case True
  then have "0 \<le> ((of_int (2 * m) :: real) + 1 / 2) / 2" by simp
  moreover have "\<lfloor>((of_int (2 * m) :: real) + 1 / 2) / 2 + 1 / 2\<rfloor> = m"
    by (rule floor_unique) (simp_all add: field_simps)
  ultimately show ?thesis by (simp add: c_round_def)
next
  case False
  then have "m \<le> -1" by simp
  then have "(of_int m :: real) \<le> -1" by (metis of_int_le_iff of_int_minus of_int_1)
  then have "\<not> 0 \<le> ((of_int (2 * m) :: real) + 1 / 2) / 2" by simp
  moreover have "\<lceil>((of_int (2 * m) :: real) + 1 / 2) / 2 - 1 / 2\<rceil> = m"
    by (rule ceiling_unique) (simp_all add: field_simps)
  ultimately show ?thesis by (simp add: c_round_def)
qed

lemma c_round_quarter_odd:
  "c_round ((of_int (2 * m + 1) + 1 / 2) / 2) = m + 1"
proof (cases "0 \<le> m")
  case True
  then have "0 \<le> ((of_int (2 * m + 1) :: real) + 1 / 2) / 2" by simp
  moreover have "\<lfloor>((of_int (2 * m + 1) :: real) + 1 / 2) / 2 + 1 / 2\<rfloor> = m + 1"
    by (rule floor_unique) (simp_all add: field_simps)
  ultimately show ?thesis by (simp add: c_round_def)
next
  case False
  then have "m \<le> -1" by simp
  then have "(of_int m :: real) \<le> -1" by (metis of_int_le_iff of_int_minus of_int_1)
  then have "\<not> 0 \<le> ((of_int (2 * m + 1) :: real) + 1 / 2) / 2" by simp
  moreover have "\<lceil>((of_int (2 * m + 1) :: real) + 1 / 2) / 2 - 1 / 2\<rceil> = m + 1"
    by (rule ceiling_unique) (simp_all add: field_simps)
  ultimately show ?thesis by (simp add: c_round_def)
qed

lemma round_real_half:
  "round_real (of_int k + 1 / 2) = (if even k then k else k + 1)"
proof -
  have half: "\<bar>(of_int k :: real) + 1 / 2 - of_int (c_round (of_int k + 1 / 2))\<bar> = 1 / 2"
    by (simp add: c_round_half)
  then have r: "round_real (of_int k + 1 / 2) = 2 * c_round ((of_int k + 1 / 2) / 2)"
    by (simp add: round_real_def Let_def)
  show ?thesis
  proof (cases "even k")
    case True
    then obtain m where "k = 2 * m" by (auto elim: evenE)
    then show ?thesis using r c_round_quarter_even[of m] by simp
  next
    case False
    then obtain m where "k = 2 * m + 1" by (auto elim: oddE)
    then show ?thesis using r c_round_quarter_odd[of m] by simp
  qed
qed



section \<open>The composite on finite arguments\<close>

lemma inverted_piecewise_value:
  "r \<noteq> 0 \<Longrightarrow>
   inverted_piecewise (Fin v) (Fin r) (Fin n) (Fin e) = Inr (Fin (inverted_value v r n e))"
  by (simp add: inverted_piecewise_Fin inverted_value_def)

lemma direct_piecewise_value:
  "direct_piecewise (Fin v) (Fin r) (Fin n) (Fin e) = Inr (Fin (direct_value v r n e))"
  by (simp add: direct_piecewise_Fin direct_value_def)

lemma compute_scores_Fin:
  "compute_scores (Fin rmssd) (Fin sdnn) (Fin pnn50) (Fin si) (Fin lfhf) (Fin hf) (Fin hr) =
     Inr (\<lambda>k. case k of
            Rmssd \<Rightarrow> Fin (inverted_value rmssd 60 40 20)
          | Sdnn \<Rightarrow> Fin (inverted_value sdnn 80 50 30)
          | Pnn50 \<Rightarrow> Fin (inverted_value pnn50 25 10 3)
          | Si \<Rightarrow> Fin (direct_value si 100 250 500)
          | Lfhf \<Rightarrow> Fin (direct_value lfhf (1 / 2) 2 4)
          | Hf \<Rightarrow> Fin (inverted_value hf 400 150 40)
          | Hr \<Rightarrow> Fin (direct_value hr 65 80 95))"
  by (simp add: compute_scores_def threshold_defs inverted_piecewise_value
      direct_piecewise_value and_then_Inr)

lemma clamped_composite_Fin:
  "clamped_composite WEIGHTS (Fin rmssd) (Fin sdnn) (Fin pnn50) (Fin si) (Fin lfhf) (Fin hf) (Fin hr) =
     Inr (Fin (max 0 (min 100 (finite_composite rmssd sdnn pnn50 si lfhf hf hr))))"
  by (simp add: clamped_composite_def compute_scores_Fin and_then_Inr composite_def
      feature_keys_def py_max_Fin py_min_Fin finite_composite_def)

lemma compute_stress_score_Fin:
  "compute_stress_score (Fin rmssd) (Fin sdnn) (Fin pnn50) (Fin si) (Fin lfhf) (Fin hf) (Fin hr) =
     Inr (round_real (max 0 (min 100 (finite_composite rmssd sdnn pnn50 si lfhf hf hr))))"
  by (simp add: compute_stress_score_def compute_stress_score_with_def clamped_composite_Fin
      and_then_Inr)

lemma compute_stress_score_with_range:
  "\<exists>k. compute_stress_score_with W rmssd sdnn pnn50 si lfhf hf hr = Inr k \<and> 0 \<le> k \<and> k \<le> 100"
proof -
  obtain scores where sc: "compute_scores rmssd sdnn pnn50 si lfhf hf hr = Inr scores"
    using compute_scores_total by blast
  obtain x where x: "py_max (Fin 0) (py_min (Fin 100) (composite W scores)) = Fin x"
    "0 \<le> x" "x \<le> 100"
    using clamp_range by blast
  have "compute_stress_score_with W rmssd sdnn pnn50 si lfhf hf hr = Inr (round_real x)"
    by (simp add: compute_stress_score_with_def clamped_composite_def sc x and_then_Inr)
  then show ?thesis using round_real_range[OF x(2,3)] by simp
qed

lemma clamped_composite_finite:
  "\<exists>x. clamped_composite W rmssd sdnn pnn50 si lfhf hf hr = Inr (Fin x) \<and> 0 \<le> x \<and> x \<le> 100"
proof -
  obtain scores where sc: "compute_scores rmssd sdnn pnn50 si lfhf hf hr = Inr scores"
    using compute_scores_total by blast
  obtain x where x: "py_max (Fin 0) (py_min (Fin 100) (composite W scores)) = Fin x"
    "0 \<le> x" "x \<le> 100"
    using clamp_range by blast
  then show ?thesis by (simp add: clamped_composite_def sc and_then_Inr)
qed

section \<open>C1: the score is an integer between 0 and 100\<close>


section \<open>C2: the range of the two interpolation functions\<close>

text \<open>
  C2, as stated, fails for the direct function: below zero the first branch
  \<^verbatim>\<open>value / relaxed * 12.0\<close> is negative, and nothing in \<^verbatim>\<open>direct_piecewise\<close> clamps it.
  With the thresholds of the stress index, the value \<open>-100\<close> scores \<open>-12\<close>.
\<close>

theorem direct_piecewise_negative_counterexample:
  "direct_piecewise (Fin (- 100)) (Fin 100) (Fin 250) (Fin 500) = Inr (Fin (- 12))
   \<and> \<not> (\<exists>s. direct_piecewise (Fin (- 100)) (Fin 100) (Fin 250) (Fin 500) = Inr (Fin s)
             \<and> 0 \<le> s \<and> s \<le> 100)"
  by (simp add: direct_piecewise_Fin)

text \<open>
  C2, amended. Under the ordering invariant, for every finite value the inverted function
  returns a real between 0 and 100, and the direct function returns a real that is at most
  100 and that is non-negative exactly when the value is non-negative.
\<close>

theorem piecewise_range:
  "(0 < ei \<and> ei < ni \<and> ni < ri \<longrightarrow>
      (\<exists>s. inverted_piecewise (Fin vi) (Fin ri) (Fin ni) (Fin ei) = Inr (Fin s)
           \<and> 0 \<le> s \<and> s \<le> 100))
   \<and> (0 < rd \<and> rd < nd \<and> nd < ed \<longrightarrow>
      (\<exists>s. direct_piecewise (Fin vd) (Fin rd) (Fin nd) (Fin ed) = Inr (Fin s)
           \<and> s \<le> 100 \<and> (0 \<le> s \<longleftrightarrow> 0 \<le> vd)))"
proof (intro conjI impI)
  assume ord: "0 < ei \<and> ei < ni \<and> ni < ri"
  then have "ri \<noteq> 0" by simp
  then show "\<exists>s. inverted_piecewise (Fin vi) (Fin ri) (Fin ni) (Fin ei) = Inr (Fin s)
           \<and> 0 \<le> s \<and> s \<le> 100"
    using inverted_value_range[of ei ni ri vi] ord by (simp add: inverted_piecewise_value)
next
  assume ord: "0 < rd \<and> rd < nd \<and> nd < ed"
  have up: "direct_value vd rd nd ed \<le> 100"
    using direct_value_upper[of rd nd ed vd] ord by simp
  have lo: "0 \<le> direct_value vd rd nd ed \<longleftrightarrow> 0 \<le> vd"
  proof
    assume nonneg: "0 \<le> direct_value vd rd nd ed"
    show "0 \<le> vd"
    proof (rule ccontr)
      assume "\<not> 0 \<le> vd"
      then have "vd < 0" "vd \<le> rd" using ord by simp_all
      then have "direct_value vd rd nd ed < 0"
        using direct_band1(3)[of rd vd nd ed] ord by simp
      then show False using nonneg by simp
    qed
  next
    assume "0 \<le> vd"
    then show "0 \<le> direct_value vd rd nd ed"
      using direct_value_lower[of rd nd ed vd] ord by simp
  qed
  show "\<exists>s. direct_piecewise (Fin vd) (Fin rd) (Fin nd) (Fin ed) = Inr (Fin s)
           \<and> s \<le> 100 \<and> (0 \<le> s \<longleftrightarrow> 0 \<le> vd)"
    using up lo by (simp add: direct_piecewise_value)
qed

theorem piecewise_range_witness:
  "((0::real) < 20 \<and> (20::real) < 40 \<and> (40::real) < 60)
   \<and> (\<exists>s. inverted_piecewise (Fin 70) (Fin 60) (Fin 40) (Fin 20) = Inr (Fin s)
           \<and> 0 \<le> s \<and> s \<le> 100)
   \<and> ((0::real) < 100 \<and> (100::real) < 250 \<and> (250::real) < 500)
   \<and> (\<exists>s. direct_piecewise (Fin 80) (Fin 100) (Fin 250) (Fin 500) = Inr (Fin s)
           \<and> s \<le> 100 \<and> (0 \<le> s \<longleftrightarrow> 0 \<le> (80::real)))"
  using piecewise_range[of 20 40 60 70 100 250 500 80] by simp

section \<open>C3: division by a zero cutoff\<close>

text \<open>
  The only division that can fail is the unguarded one in the first branch of the inverted
  function: with finite thresholds the inverted function raises exactly when the relaxed
  cutoff is zero and the value is non-negative, and the direct function never raises
  (\<open>direct_piecewise_total\<close>). The divisors of the two middle branches cannot be zero
  when their branch is taken, and the last branch of both functions is guarded.
\<close>

lemma inverted_piecewise_raises_iff:
  "inverted_piecewise (Fin v) (Fin r) (Fin n) (Fin e) = Inl ZeroDivisionError
     \<longleftrightarrow> r = 0 \<and> 0 \<le> v"
  by (auto simp: inverted_piecewise_Fin)

text \<open>
  C3 fails on the code: the inverted function with relaxed cutoff 0 raises
  \<^verbatim>\<open>ZeroDivisionError\<close> at the value 5, where \<^verbatim>\<open>(value - relaxed) / relaxed\<close> divides
  by the cutoff without the guard its sibling \<^verbatim>\<open>direct_piecewise\<close> has.
\<close>

theorem inverted_piecewise_relaxed_zero_raises:
  "inverted_piecewise (Fin 5) (Fin 0) (Fin 0) (Fin 0) = Inl ZeroDivisionError"
  by (simp add: inverted_piecewise_Fin)

section \<open>C4: the relaxed reference vector\<close>

lemma relaxed_profile_composite:
  "finite_composite 70 90 30 80 (2 / 5) 500 62 = 5179 / 520"
  by (simp add: finite_composite_def inverted_value_def direct_value_def)

lemma round_real_relaxed_profile: "round_real (5179 / 520) = 10"
proof -
  have "\<lfloor>(5179 / 520 :: real) + 1 / 2\<rfloor> = 10" by (rule floor_unique) simp_all
  then have "c_round (5179 / 520) = 10" by (simp add: c_round_def)
  then show ?thesis by (simp add: round_real_def Let_def)
qed

lemma relaxed_profile_score_with:
  "compute_stress_score_with WEIGHTS (Fin 70) (Fin 90) (Fin 30) (Fin 80) (Fin (2 / 5)) (Fin 500)
     (Fin 62) = Inr 10"
  by (simp add: compute_stress_score_with_def clamped_composite_Fin and_then_Inr
      relaxed_profile_composite round_real_relaxed_profile)

text \<open>
  C4, as stated, fails: the weighted sum for the relaxed reference vector is
  \<open>5179 / 520\<close>, about 9.96, and its rounding is not 9.
\<close>

theorem relaxed_profile_not_9:
  "compute_stress_score (Fin 70) (Fin 90) (Fin 30) (Fin 80) (Fin (2 / 5)) (Fin 500) (Fin 62)
     \<noteq> Inr 9"
  by (simp add: compute_stress_score_def relaxed_profile_score_with)

text \<open>
  C4, amended. With the default thresholds and weights,
  \<^verbatim>\<open>compute_stress_score(70, 90, 30, 80, 0.4, 500, 62)\<close> returns the integer 10.
\<close>

theorem relaxed_profile_score:
  "compute_stress_score (Fin 70) (Fin 90) (Fin 30) (Fin 80) (Fin (2 / 5)) (Fin 500) (Fin 62)
     = Inr 10"
  by (simp add: compute_stress_score_def relaxed_profile_score_with)

section \<open>C5: monotonicity\<close>

text \<open>
  C5. Under the ordering invariant and for finite values \<open>v1 \<le> v2\<close>, the inverted function
  scores \<open>v2\<close> no higher than \<open>v1\<close>, and the direct function scores \<open>v2\<close> no lower than
  \<open>v1\<close>, also when the two values lie in different bands.
\<close>

theorem piecewise_monotone:
  "(0 < ei \<and> ei < ni \<and> ni < ri \<and> v1 \<le> v2 \<longrightarrow>
      (\<exists>s1 s2. inverted_piecewise (Fin v1) (Fin ri) (Fin ni) (Fin ei) = Inr (Fin s1)
             \<and> inverted_piecewise (Fin v2) (Fin ri) (Fin ni) (Fin ei) = Inr (Fin s2)
             \<and> s2 \<le> s1))
   \<and> (0 < rd \<and> rd < nd \<and> nd < ed \<and> w1 \<le> w2 \<longrightarrow>
      (\<exists>s1 s2. direct_piecewise (Fin w1) (Fin rd) (Fin nd) (Fin ed) = Inr (Fin s1)
             \<and> direct_piecewise (Fin w2) (Fin rd) (Fin nd) (Fin ed) = Inr (Fin s2)
             \<and> s1 \<le> s2))"
proof (intro conjI impI)
  assume h: "0 < ei \<and> ei < ni \<and> ni < ri \<and> v1 \<le> v2"
  then have "ri \<noteq> 0" by simp
  then show "\<exists>s1 s2. inverted_piecewise (Fin v1) (Fin ri) (Fin ni) (Fin ei) = Inr (Fin s1)
             \<and> inverted_piecewise (Fin v2) (Fin ri) (Fin ni) (Fin ei) = Inr (Fin s2)
             \<and> s2 \<le> s1"
    using inverted_value_antimono[of ei ni ri v1 v2] h by (simp add: inverted_piecewise_value)
next
  assume h: "0 < rd \<and> rd < nd \<and> nd < ed \<and> w1 \<le> w2"
  then show "\<exists>s1 s2. direct_piecewise (Fin w1) (Fin rd) (Fin nd) (Fin ed) = Inr (Fin s1)
             \<and> direct_piecewise (Fin w2) (Fin rd) (Fin nd) (Fin ed) = Inr (Fin s2)
             \<and> s1 \<le> s2"
    using direct_value_mono[of rd nd ed w1 w2] by (simp add: direct_piecewise_value)
qed

theorem piecewise_monotone_witness:
  "((0::real) < 20 \<and> (20::real) < 40 \<and> (40::real) < 60 \<and> (30::real) \<le> 50)
   \<and> (\<exists>s1 s2. inverted_piecewise (Fin 30) (Fin 60) (Fin 40) (Fin 20) = Inr (Fin s1)
             \<and> inverted_piecewise (Fin 50) (Fin 60) (Fin 40) (Fin 20) = Inr (Fin s2)
             \<and> s2 \<le> s1)
   \<and> ((0::real) < 100 \<and> (100::real) < 250 \<and> (250::real) < 500 \<and> (90::real) \<le> 300)
   \<and> (\<exists>s1 s2. direct_piecewise (Fin 90) (Fin 100) (Fin 250) (Fin 500) = Inr (Fin s1)
             \<and> direct_piecewise (Fin 300) (Fin 100) (Fin 250) (Fin 500) = Inr (Fin s2)
             \<and> s1 \<le> s2)"
  using piecewise_monotone[of 20 40 60 30 50 100 250 500 90 300] by simp

section \<open>C6: the values at the cutoffs\<close>

text \<open>
  Just past the relaxed and the normal cutoff the next band takes over, and its scores come
  arbitrarily close to 13 and to 38 from above (and never reach them: \<open>inverted_band2\<close>,
  \<open>inverted_band3\<close>, \<open>direct_band2\<close>, \<open>direct_band3\<close>). So the seams are 12/13 and 37/38.
\<close>

lemma seam_offset:
  fixes w eps :: real
  assumes "0 < w" "0 < eps"
  shows "\<exists>d. 0 < d \<and> d \<le> w \<and> d / w * 24 < eps"
proof -
  define c where "c = min 1 (eps / 48)"
  have c: "0 < c" "c \<le> 1" "c * 24 < eps" using assms by (simp_all add: c_def min_def)
  have "0 < c * w" "c * w \<le> w" "c * w / w * 24 < eps"
    using assms c by (simp_all add: mult_le_cancel_right1)
  then show ?thesis by blast
qed

lemma inverted_seam_13:
  assumes "n < r" "0 < eps"
  shows "\<exists>v. n \<le> v \<and> v < r \<and> inverted_value v r n e < 13 + eps"
proof -
  obtain d where d: "0 < d" "d \<le> r - n" "d / (r - n) * 24 < eps"
    using seam_offset[of "r - n" eps] assms by auto
  have "inverted_value (r - d) r n e = 13 + d / (r - n) * 24"
    using d assms by (simp add: inverted_value_def)
  then have "n \<le> r - d \<and> r - d < r \<and> inverted_value (r - d) r n e < 13 + eps"
    using d by simp
  then show ?thesis by blast
qed

lemma inverted_seam_38:
  assumes "e < n" "n < r" "0 < eps"
  shows "\<exists>v. e \<le> v \<and> v < n \<and> inverted_value v r n e < 38 + eps"
proof -
  obtain d where d: "0 < d" "d \<le> n - e" "d / (n - e) * 24 < eps"
    using seam_offset[of "n - e" eps] assms by auto
  have "inverted_value (n - d) r n e = 38 + d / (n - e) * 24"
    using d assms by (simp add: inverted_value_def)
  then have "e \<le> n - d \<and> n - d < n \<and> inverted_value (n - d) r n e < 38 + eps"
    using d by simp
  then show ?thesis by blast
qed

lemma direct_seam_13:
  assumes "r < n" "0 < eps"
  shows "\<exists>v. r < v \<and> v \<le> n \<and> direct_value v r n e < 13 + eps"
proof -
  obtain d where d: "0 < d" "d \<le> n - r" "d / (n - r) * 24 < eps"
    using seam_offset[of "n - r" eps] assms by auto
  have "direct_value (r + d) r n e = 13 + d / (n - r) * 24"
    using d assms by (simp add: direct_value_def)
  then have "r < r + d \<and> r + d \<le> n \<and> direct_value (r + d) r n e < 13 + eps"
    using d by simp
  then show ?thesis by blast
qed

lemma direct_seam_38:
  assumes "r < n" "n < e" "0 < eps"
  shows "\<exists>v. n < v \<and> v \<le> e \<and> direct_value v r n e < 38 + eps"
proof -
  obtain d where d: "0 < d" "d \<le> e - n" "d / (e - n) * 24 < eps"
    using seam_offset[of "e - n" eps] assms by auto
  have "direct_value (n + d) r n e = 38 + d / (e - n) * 24"
    using d assms by (simp add: direct_value_def)
  then have "n < n + d \<and> n + d \<le> e \<and> direct_value (n + d) r n e < 38 + eps"
    using d by simp
  then show ?thesis by blast
qed

text \<open>
  C6. Under the ordering invariant both interpolation functions return exactly 12 at the
  relaxed cutoff, exactly 37 at the normal cutoff and exactly 62 at the elevated cutoff.
\<close>

theorem cutoff_values:
  "(0 < ei \<and> ei < ni \<and> ni < ri \<longrightarrow>
      inverted_piecewise (Fin ri) (Fin ri) (Fin ni) (Fin ei) = Inr (Fin 12)
      \<and> inverted_piecewise (Fin ni) (Fin ri) (Fin ni) (Fin ei) = Inr (Fin 37)
      \<and> inverted_piecewise (Fin ei) (Fin ri) (Fin ni) (Fin ei) = Inr (Fin 62))
   \<and> (0 < rd \<and> rd < nd \<and> nd < ed \<longrightarrow>
      direct_piecewise (Fin rd) (Fin rd) (Fin nd) (Fin ed) = Inr (Fin 12)
      \<and> direct_piecewise (Fin nd) (Fin rd) (Fin nd) (Fin ed) = Inr (Fin 37)
      \<and> direct_piecewise (Fin ed) (Fin rd) (Fin nd) (Fin ed) = Inr (Fin 62))"
  by (simp add: inverted_piecewise_Fin direct_piecewise_Fin)

theorem cutoff_values_witness:
  "((0::real) < 20 \<and> (20::real) < 40 \<and> (40::real) < 60)
   \<and> inverted_piecewise (Fin 60) (Fin 60) (Fin 40) (Fin 20) = Inr (Fin 12)
   \<and> inverted_piecewise (Fin 40) (Fin 60) (Fin 40) (Fin 20) = Inr (Fin 37)
   \<and> inverted_piecewise (Fin 20) (Fin 60) (Fin 40) (Fin 20) = Inr (Fin 62)
   \<and> ((0::real) < 100 \<and> (100::real) < 250 \<and> (250::real) < 500)
   \<and> direct_piecewise (Fin 100) (Fin 100) (Fin 250) (Fin 500) = Inr (Fin 12)
   \<and> direct_piecewise (Fin 250) (Fin 100) (Fin 250) (Fin 500) = Inr (Fin 37)
   \<and> direct_piecewise (Fin 500) (Fin 100) (Fin 250) (Fin 500) = Inr (Fin 62)"
  using cutoff_values[of 20 40 60 100 250 500] by simp

section \<open>C7: weights that do not sum to one\<close>

lemma weights_097_score_with:
  "compute_stress_score_with (WEIGHTS(Rmssd := Fin (22 / 100)))
     (Fin 70) (Fin 90) (Fin 30) (Fin 80) (Fin (2 / 5)) (Fin 500) (Fin 62) = Inr 10"
proof -
  define W where "W = WEIGHTS(Rmssd := Fin (22 / 100))"
  have c: "composite W
     (\<lambda>k. case k of
            Rmssd \<Rightarrow> Fin (inverted_value 70 60 40 20)
          | Sdnn \<Rightarrow> Fin (inverted_value 90 80 50 30)
          | Pnn50 \<Rightarrow> Fin (inverted_value 30 25 10 3)
          | Si \<Rightarrow> Fin (direct_value 80 100 250 500)
          | Lfhf \<Rightarrow> Fin (direct_value (2 / 5) (1 / 2) 2 4)
          | Hf \<Rightarrow> Fin (inverted_value 500 400 150 40)
          | Hr \<Rightarrow> Fin (direct_value 62 65 80 95)) = Fin (5023 / 520)"
    by (simp add: W_def composite_def feature_keys_def inverted_value_def direct_value_def)
  have "\<lfloor>(5023 / 520 :: real) + 1 / 2\<rfloor> = 10" by (rule floor_unique) simp_all
  then have "c_round (5023 / 520) = 10" by (simp add: c_round_def)
  then have r: "round_real (5023 / 520) = 10" by (simp add: round_real_def Let_def)
  have "compute_stress_score_with W
     (Fin 70) (Fin 90) (Fin 30) (Fin 80) (Fin (2 / 5)) (Fin 500) (Fin 62) = Inr 10"
    by (simp add: compute_stress_score_with_def clamped_composite_def compute_scores_Fin
        and_then_Inr c py_max_Fin py_min_Fin r)
  then show ?thesis by (simp only: W_def)
qed

text \<open>
  C7, as stated, fails: the code has no validation of the weights. A binding of
  \<^verbatim>\<open>WEIGHTS\<close> whose values sum to 0.97 (the default with the weight of RMSSD lowered to
  0.22) is scored like any other.
\<close>

theorem weights_097_accepted:
  "foldl fadd (Fin 0) (map (WEIGHTS(Rmssd := Fin (22 / 100))) feature_keys) = Fin (97 / 100)
   \<and> compute_stress_score_with (WEIGHTS(Rmssd := Fin (22 / 100)))
        (Fin 70) (Fin 90) (Fin 30) (Fin 80) (Fin (2 / 5)) (Fin 500) (Fin 62) = Inr 10"
  using weights_097_score_with by (simp add: feature_keys_def)

text \<open>
  C7, amended. The default weights sum to 1, and the weights are not validated: under any
  binding of the seven weights, whatever their sum, the scorer returns an integer between
  0 and 100 for every finite input.
\<close>

theorem weights_unchecked:
  "foldl fadd (Fin 0) (map WEIGHTS feature_keys) = Fin 1
   \<and> (\<exists>k. compute_stress_score_with W (Fin rmssd) (Fin sdnn) (Fin pnn50) (Fin si) (Fin lfhf)
            (Fin hf) (Fin hr) = Inr k \<and> 0 \<le> k \<and> k \<le> 100)"
  using compute_stress_score_with_range[of W] by (simp add: feature_keys_def)

section \<open>C8: rounding half to even\<close>

text \<open>
  Two inputs whose composite is exactly halfway between two integers, in the source as in
  the model: every operation on them is exact in the binary format (the quotients are
  0, \<open>1 / 2\<close> and 1, and the only weight that meets a non-zero sub-score is \<open>0.25\<close>).
\<close>

lemma exact_half_composites:
  "finite_composite 30 160 50 0 0 800 0 = 25 / 2"
  "finite_composite 90 160 50 0 0 800 0 = 3 / 2"
  by (simp_all add: finite_composite_def inverted_value_def direct_value_def)

text \<open>
  C8. The score is the result of the rounding step \<open>py_round\<close> on the clamped composite,
  and the rounding step takes every value exactly halfway between the integers \<open>k\<close> and
  \<open>k + 1\<close> to the even one of the two.
\<close>

theorem round_half_to_even:
  "compute_stress_score rmssd sdnn pnn50 si lfhf hf hr =
     and_then (clamped_composite WEIGHTS rmssd sdnn pnn50 si lfhf hf hr) py_round
   \<and> py_round (Fin (of_int k + 1 / 2)) = Inr (if even k then k else k + 1)"
  by (simp add: compute_stress_score_def compute_stress_score_with_def round_real_half)

text \<open>
  At the composite 12.5 the score is 12, not 13; at the composite 1.5 it is 2, not 1.
\<close>

theorem round_half_to_even_witness:
  "clamped_composite WEIGHTS (Fin 30) (Fin 160) (Fin 50) (Fin 0) (Fin 0) (Fin 800) (Fin 0)
     = Inr (Fin (of_int 12 + 1 / 2))
   \<and> compute_stress_score (Fin 30) (Fin 160) (Fin 50) (Fin 0) (Fin 0) (Fin 800) (Fin 0) = Inr 12
   \<and> clamped_composite WEIGHTS (Fin 90) (Fin 160) (Fin 50) (Fin 0) (Fin 0) (Fin 800) (Fin 0)
     = Inr (Fin (of_int 1 + 1 / 2))
   \<and> compute_stress_score (Fin 90) (Fin 160) (Fin 50) (Fin 0) (Fin 0) (Fin 800) (Fin 0) = Inr 2"
proof -
  have a: "clamped_composite WEIGHTS (Fin 30) (Fin 160) (Fin 50) (Fin 0) (Fin 0) (Fin 800) (Fin 0)
     = Inr (Fin (of_int 12 + 1 / 2))"
    by (simp add: clamped_composite_Fin exact_half_composites)
  have b: "clamped_composite WEIGHTS (Fin 90) (Fin 160) (Fin 50) (Fin 0) (Fin 0) (Fin 800) (Fin 0)
     = Inr (Fin (of_int 1 + 1 / 2))"
    by (simp add: clamped_composite_Fin exact_half_composites)
  show ?thesis
    using a b
      round_half_to_even[of "Fin 30" "Fin 160" "Fin 50" "Fin 0" "Fin 0" "Fin 800" "Fin 0" 12]
      round_half_to_even[of "Fin 90" "Fin 160" "Fin 50" "Fin 0" "Fin 0" "Fin 800" "Fin 0" 1]
    by (simp add: and_then_Inr)
qed

section \<open>C9: NaN feature values\<close>

text \<open>
  C9. On a NaN value both interpolation functions return exactly 100 (for any finite
  thresholds), and a call of the scorer with a NaN among its seven inputs raises nothing:
  the clamped composite is a finite number and the score an integer between 0 and 100.
\<close>

theorem nan_feature_scores:
  "inverted_piecewise NaN (Fin r) (Fin n) (Fin e) = Inr (Fin 100)
   \<and> direct_piecewise NaN (Fin r) (Fin n) (Fin e) = Inr (Fin 100)
   \<and> (NaN \<in> set [rmssd, sdnn, pnn50, si, lfhf, hf, hr] \<longrightarrow>
        (\<exists>x k. clamped_composite WEIGHTS rmssd sdnn pnn50 si lfhf hf hr = Inr (Fin x)
              \<and> compute_stress_score rmssd sdnn pnn50 si lfhf hf hr = Inr k
              \<and> 0 \<le> k \<and> k \<le> 100))"
proof -
  obtain x where x: "clamped_composite WEIGHTS rmssd sdnn pnn50 si lfhf hf hr = Inr (Fin x)"
    "0 \<le> x" "x \<le> 100"
    using clamped_composite_finite[of WEIGHTS] by blast
  have "compute_stress_score rmssd sdnn pnn50 si lfhf hf hr = Inr (round_real x)"
    by (simp add: compute_stress_score_def compute_stress_score_with_def x and_then_Inr)
  then have "\<exists>x k. clamped_composite WEIGHTS rmssd sdnn pnn50 si lfhf hf hr = Inr (Fin x)
              \<and> compute_stress_score rmssd sdnn pnn50 si lfhf hf hr = Inr k
              \<and> 0 \<le> k \<and> k \<le> 100"
    using x round_real_range[OF x(2,3)] by simp
  then show ?thesis
    by (simp add: inverted_piecewise_NaN direct_piecewise_NaN)
qed

theorem nan_feature_scores_witness:
  "NaN \<in> set [NaN, Fin 90, Fin 30, Fin 80, Fin (2 / 5), Fin 500, Fin 62]
   \<and> (\<exists>x k. clamped_composite WEIGHTS NaN (Fin 90) (Fin 30) (Fin 80) (Fin (2 / 5)) (Fin 500)
               (Fin 62) = Inr (Fin x)
           \<and> compute_stress_score NaN (Fin 90) (Fin 30) (Fin 80) (Fin (2 / 5)) (Fin 500) (Fin 62)
               = Inr k
           \<and> 0 \<le> k \<and> k \<le> 100)"
  using nan_feature_scores[of 60 40 20 NaN "Fin 90" "Fin 30" "Fin 80" "Fin (2 / 5)" "Fin 500" "Fin 62"]
  by simp

section \<open>C10: no division by zero under the default table\<close>

text \<open>
  C10. None of the divisors of the seven default threshold triples is zero, and for all
  seven finite inputs the scorer returns a value rather than raising.
\<close>

theorem default_table_total:
  "Fin 0 \<notin> set (inverted_denominators RMSSD_RELAXED RMSSD_NORMAL RMSSD_ELEVATED)
   \<and> Fin 0 \<notin> set (inverted_denominators SDNN_RELAXED SDNN_NORMAL SDNN_ELEVATED)
   \<and> Fin 0 \<notin> set (inverted_denominators PNN50_RELAXED PNN50_NORMAL PNN50_ELEVATED)
   \<and> Fin 0 \<notin> set (direct_denominators SI_RELAXED SI_NORMAL SI_ELEVATED)
   \<and> Fin 0 \<notin> set (direct_denominators LFHF_RELAXED LFHF_NORMAL LFHF_ELEVATED)
   \<and> Fin 0 \<notin> set (inverted_denominators HF_RELAXED HF_NORMAL HF_ELEVATED)
   \<and> Fin 0 \<notin> set (direct_denominators HR_RELAXED HR_NORMAL HR_ELEVATED)
   \<and> (\<exists>k. compute_stress_score (Fin rmssd) (Fin sdnn) (Fin pnn50) (Fin si) (Fin lfhf) (Fin hf)
            (Fin hr) = Inr k)"
proof -
  have "\<exists>k. compute_stress_score (Fin rmssd) (Fin sdnn) (Fin pnn50) (Fin si) (Fin lfhf) (Fin hf)
            (Fin hr) = Inr k"
    by (simp add: compute_stress_score_Fin)
  then show ?thesis
    by (simp add: inverted_denominators_def direct_denominators_def threshold_defs)
qed

end
